theory Spec2Isabelle
  imports Main "HOL-Library.Word" "HOL-Library.AList"
begin

unbundle bit_operations_syntax

section \<open>Resources and their metadata\<close>

text \<open>
  The helpers work on COSI resources. Only the metadata of a resource is read or
  written by them: type, id, version, phase, labels, annotations and finalizers.
  Labels and annotations are key/value collections (\<open>kvutils.KV\<close>, a Go map from
  string to string). A Go map is modelled by the list of its entries: \<open>Get\<close> is a
  lookup, \<open>Set\<close> replaces or adds the entry of a key, \<open>Delete\<close> removes it, and
  a \<open>range\<close> loop visits the entries in the order of the list (Go fixes no order;
  the theorems below are stated on lookups, which do not depend on it).
\<close>

datatype Phase = PhaseRunning | PhaseTearingDown

type_synonym KV = "(string \<times> string) list"

definition kv_Get :: "KV \<Rightarrow> string \<Rightarrow> string option" where
  "kv_Get m key = map_of m key"

definition kv_Set :: "string \<Rightarrow> string \<Rightarrow> KV \<Rightarrow> KV" where
  "kv_Set key v m = AList.update key v m"

definition kv_Delete :: "string \<Rightarrow> KV \<Rightarrow> KV" where
  "kv_Delete key m = AList.delete key m"

record Metadata =
  Type :: string
  ID :: string
  Version :: string
  Phase :: Phase
  Labels :: KV
  Annotations :: KV
  Finalizers :: "string list"

record 'spec Resource =
  Metadata :: Metadata
  TypedSpec :: 'spec

section \<open>SHA-256 and hex encoding\<close>

text \<open>
  \<open>crypto/sha256\<close> and \<open>encoding/hex\<close> are the Go standard library: SHA-256 as in
  FIPS 180-4 on bytes, and the lower-case hexadecimal encoding of a byte slice.
  A \<open>hash.Hash\<close> is modelled by the bytes written to it so far; \<open>Sum\<close> digests them.
\<close>

type_synonym byte = "8 word"
type_synonym u32 = "32 word"

definition rotr :: "nat \<Rightarrow> u32 \<Rightarrow> u32" where
  "rotr n x = (drop_bit n x) OR (push_bit (32 - n) x)"

text \<open>The 64 round constants, eight for every eight rounds.\<close>

definition K256 :: "u32 list" where
  "K256 = concat
    [[0x428a2f98, 0x71374491, 0xb5c0fbcf, 0xe9b5dba5, 0x3956c25b, 0x59f111f1, 0x923f82a4, 0xab1c5ed5],
     [0xd807aa98, 0x12835b01, 0x243185be, 0x550c7dc3, 0x72be5d74, 0x80deb1fe, 0x9bdc06a7, 0xc19bf174],
     [0xe49b69c1, 0xefbe4786, 0x0fc19dc6, 0x240ca1cc, 0x2de92c6f, 0x4a7484aa, 0x5cb0a9dc, 0x76f988da],
     [0x983e5152, 0xa831c66d, 0xb00327c8, 0xbf597fc7, 0xc6e00bf3, 0xd5a79147, 0x06ca6351, 0x14292967],
     [0x27b70a85, 0x2e1b2138, 0x4d2c6dfc, 0x53380d13, 0x650a7354, 0x766a0abb, 0x81c2c92e, 0x92722c85],
     [0xa2bfe8a1, 0xa81a664b, 0xc24b8b70, 0xc76c51a3, 0xd192e819, 0xd6990624, 0xf40e3585, 0x106aa070],
     [0x19a4c116, 0x1e376c08, 0x2748774c, 0x34b0bcb5, 0x391c0cb3, 0x4ed8aa4a, 0x5b9cca4f, 0x682e6ff3],
     [0x748f82ee, 0x78a5636f, 0x84c87814, 0x8cc70208, 0x90befffa, 0xa4506ceb, 0xbef9a3f7, 0xc67178f2]]"

definition init256 :: "u32 list" where
  "init256 = [0x6a09e667, 0xbb67ae85, 0x3c6ef372, 0xa54ff53a,
              0x510e527f, 0x9b05688c, 0x1f83d9ab, 0x5be0cd19]"

definition be32 :: "byte list \<Rightarrow> u32" where
  "be32 bs = foldl (\<lambda>acc b. push_bit 8 acc OR ucast b) 0 bs"

fun chunks :: "nat \<Rightarrow> 'a list \<Rightarrow> 'a list list" where
  "chunks n [] = []"
| "chunks n xs = (if n = 0 then [xs] else take n xs # chunks n (drop n xs))"

definition sigma0 :: "u32 \<Rightarrow> u32" where
  "sigma0 x = rotr 7 x XOR rotr 18 x XOR drop_bit 3 x"

definition sigma1 :: "u32 \<Rightarrow> u32" where
  "sigma1 x = rotr 17 x XOR rotr 19 x XOR drop_bit 10 x"

definition Sigma0 :: "u32 \<Rightarrow> u32" where
  "Sigma0 x = rotr 2 x XOR rotr 13 x XOR rotr 22 x"

definition Sigma1 :: "u32 \<Rightarrow> u32" where
  "Sigma1 x = rotr 6 x XOR rotr 11 x XOR rotr 25 x"

fun schedule :: "nat \<Rightarrow> u32 list \<Rightarrow> u32 list" where
  "schedule 0 w = w"
| "schedule (Suc n) w =
     (let l = length w in
      schedule n (w @ [sigma1 (w ! (l - 2)) + w ! (l - 7) + sigma0 (w ! (l - 15)) + w ! (l - 16)]))"

fun round256 :: "u32 list \<Rightarrow> u32 \<times> u32 \<Rightarrow> u32 list" where
  "round256 [a, b, c, d, e, f, g, h] (k, w) =
     (let t1 = h + Sigma1 e + ((e AND f) XOR (NOT e AND g)) + k + w;
          t2 = Sigma0 a + ((a AND b) XOR (a AND c) XOR (b AND c))
      in [t1 + t2, a, b, c, d + t1, e, f, g])"
| "round256 s _ = s"

definition block256 :: "u32 list \<Rightarrow> byte list \<Rightarrow> u32 list" where
  "block256 h blk =
     (let w = schedule 48 (map be32 (chunks 4 blk))
      in map2 (+) h (foldl round256 h (zip K256 w)))"

definition pad256 :: "byte list \<Rightarrow> byte list" where
  "pad256 m =
     (let l = length m;
          z = (55 + 64 - l mod 64) mod 64
      in m @ [0x80] @ replicate z 0 @
         map (\<lambda>i. ucast (drop_bit (8 * (7 - i)) (word_of_nat (8 * l) :: 64 word))) [0..<8])"

definition bytes32 :: "u32 \<Rightarrow> byte list" where
  "bytes32 x = map (\<lambda>i. ucast (drop_bit (8 * (3 - i)) x)) [0..<4]"

definition sha256_Sum :: "byte list \<Rightarrow> byte list" where
  "sha256_Sum written = concat (map bytes32 (foldl block256 init256 (chunks 64 (pad256 written))))"

definition sha256_New :: "byte list" where
  "sha256_New = []"

definition hash_Write :: "byte list \<Rightarrow> byte list \<Rightarrow> byte list" where
  "hash_Write written p = written @ p"

definition hextable :: string where
  "hextable = ''0123456789abcdef''"

definition EncodeToString :: "byte list \<Rightarrow> string" where
  "EncodeToString src =
     concat (map (\<lambda>v. [hextable ! unat (drop_bit 4 v), hextable ! unat (v AND 0x0f)]) src)"

text \<open>The conversion \<open>[]byte(s)\<close> of a Go string: a string is its bytes.\<close>

definition bytes_of :: "string \<Rightarrow> byte list" where
  "bytes_of s = map of_char s"

section \<open>Change-tracked annotation\<close>

definition InputResourceVersionAnnotation :: string where
  "InputResourceVersionAnnotation = ''inputResourceVersion''"

text \<open>
  The loop of \<open>UpdateInputsAnnotation\<close>: a comma is written before every version but
  the first, then the version.
\<close>

fun write_versions :: "nat \<Rightarrow> string list \<Rightarrow> byte list \<Rightarrow> byte list" where
  "write_versions i [] hash = hash"
| "write_versions i (version # rest) hash =
     write_versions (Suc i) rest
       (hash_Write (if i > 0 then hash_Write hash (bytes_of '','') else hash) (bytes_of version))"

definition inVersion :: "string list \<Rightarrow> string" where
  "inVersion versions = EncodeToString (sha256_Sum (write_versions 0 versions sha256_New))"

text \<open>
  \<open>UpdateInputsAnnotation\<close> mutates \<open>out\<close> in place and returns a boolean; the model
  returns the boolean and the resource after the call.
\<close>

definition UpdateInputsAnnotation :: "'a Resource \<Rightarrow> string list \<Rightarrow> bool \<times> 'a Resource" where
  "UpdateInputsAnnotation out versions =
     (let found = kv_Get (Annotations (Metadata out)) InputResourceVersionAnnotation in
      if (case found of Some version \<Rightarrow> version = inVersion versions | None \<Rightarrow> False)
      then (False, out)
      else (True, out\<lparr>Metadata := (Metadata out)
              \<lparr>Annotations := kv_Set InputResourceVersionAnnotation (inVersion versions)
                                 (Annotations (Metadata out))\<rparr>\<rparr>))"

text \<open>The version token of an input: \<open>fmt.Sprintf("%s/%s@%s", type, id, version)\<close>.\<close>

definition version_token :: "'b Resource \<Rightarrow> string" where
  "version_token input =
     Type (Metadata input) @ ''/'' @ ID (Metadata input) @ ''@'' @ Version (Metadata input)"

definition UpdateInputsVersions :: "'a Resource \<Rightarrow> 'b Resource list \<Rightarrow> bool \<times> 'a Resource" where
  "UpdateInputsVersions out inputs = UpdateInputsAnnotation out (map version_token inputs)"

text \<open>
  Resources are passed by reference. To state what a call leaves alone, the resources
  live in a store indexed by addresses: the call reads the inputs and \<open>out\<close> from the
  store and writes \<open>out\<close> back.
\<close>

type_synonym 'a Store = "nat \<Rightarrow> 'a Resource"

definition UpdateInputsVersions_ref :: "'a Store \<Rightarrow> nat \<Rightarrow> nat list \<Rightarrow> bool \<times> 'a Store" where
  "UpdateInputsVersions_ref store out inputs =
     (case UpdateInputsVersions (store out) (map store inputs) of
        (changed, out') \<Rightarrow> (changed, store(out := out')))"

section \<open>User and system labels\<close>

text \<open>
  \<open>omni.SystemLabelPrefix\<close> is declared in the \<open>omni\<close> resources package, outside
  the files at hand; it is a parameter of the two functions that use it.
\<close>

definition HasPrefix :: "string \<Rightarrow> string \<Rightarrow> bool" where
  "HasPrefix s prefix = (take (length prefix) s = prefix)"

text \<open>
  The loop of \<open>ClearUserLabels\<close> ranges over the labels of the resource and deletes
  every key without the system prefix from the temporary collection.
\<close>

fun clear_loop :: "string \<Rightarrow> KV \<Rightarrow> KV \<Rightarrow> KV" where
  "clear_loop SystemLabelPrefix [] tmp = tmp"
| "clear_loop SystemLabelPrefix ((key, v) # rest) tmp =
     (if HasPrefix key SystemLabelPrefix then clear_loop SystemLabelPrefix rest tmp
      else clear_loop SystemLabelPrefix rest (kv_Delete key tmp))"

definition ClearUserLabels :: "string \<Rightarrow> 'a Resource \<Rightarrow> 'a Resource" where
  "ClearUserLabels SystemLabelPrefix res =
     res\<lparr>Metadata := (Metadata res)
       \<lparr>Labels := clear_loop SystemLabelPrefix (Labels (Metadata res)) (Labels (Metadata res))\<rparr>\<rparr>"

text \<open>The loop of \<open>CopyUserLabels\<close> sets every entry of \<open>labels\<close> without the system prefix.\<close>

fun copy_loop :: "string \<Rightarrow> KV \<Rightarrow> KV \<Rightarrow> KV" where
  "copy_loop SystemLabelPrefix [] tmp = tmp"
| "copy_loop SystemLabelPrefix ((key, v) # rest) tmp =
     (if HasPrefix key SystemLabelPrefix then copy_loop SystemLabelPrefix rest tmp
      else copy_loop SystemLabelPrefix rest (kv_Set key v tmp))"

definition CopyUserLabels :: "string \<Rightarrow> 'a Resource \<Rightarrow> KV \<Rightarrow> 'a Resource" where
  "CopyUserLabels SystemLabelPrefix target labels =
     (let cleared = ClearUserLabels SystemLabelPrefix target in
      if length labels = 0 then cleared
      else cleared\<lparr>Metadata := (Metadata cleared)
             \<lparr>Labels := copy_loop SystemLabelPrefix labels (Labels (Metadata cleared))\<rparr>\<rparr>)"

section \<open>Errors\<close>

text \<open>
  Errors are values. A store reports a missing resource by a not-found error; every
  other failure is an error with a message. \<open>fmt.Errorf("...: %w", err)\<close> wraps an
  error behind a prefix: its message is the prefix followed by the message of the
  wrapped error, and \<open>state.IsNotFoundError\<close> looks through the wrapping.
\<close>

datatype error = ErrNotFound string | ErrOther string | ErrWrap string error


fun IsNotFoundError :: "error \<Rightarrow> bool" where
  "IsNotFoundError (ErrNotFound msg) = True"
| "IsNotFoundError (ErrOther msg) = False"
| "IsNotFoundError (ErrWrap prefix err) = IsNotFoundError err"

section \<open>Guarded access to a dependent resource\<close>

record HandleInputOptions =
  opt_id :: string

type_synonym HandleInputOption = "HandleInputOptions \<Rightarrow> HandleInputOptions"

definition WithID :: "string \<Rightarrow> HandleInputOption" where
  "WithID id' hio = hio\<lparr>opt_id := id'\<rparr>"

text \<open>
  \<open>controller.ReaderWriter\<close> is an interface of the COSI runtime. It is modelled by
  the three operations \<open>HandleInput\<close> calls, over a state of the runtime that the
  two finalizer operations may change. A finalizer operation returns its error, if any.
\<close>

record ('st, 't) ReaderWriter =
  ReaderGetByID :: "'st \<Rightarrow> string \<Rightarrow> error + 't Resource"
  RemoveFinalizer :: "'st \<Rightarrow> Metadata \<Rightarrow> string \<Rightarrow> error option \<times> 'st"
  AddFinalizer :: "'st \<Rightarrow> Metadata \<Rightarrow> string \<Rightarrow> error option \<times> 'st"

text \<open>The calls made on the reader-writer, in order, are part of the outcome.\<close>

datatype Call =
  CallGet string
| CallRemoveFinalizer Metadata string
| CallAddFinalizer Metadata string

text \<open>
  The two results \<open>(T, error)\<close> of \<open>HandleInput\<close> are an error (with the zero value),
  or no error with a value that is the zero value (\<open>None\<close>) or a resource.
\<close>

text \<open>The options of a call: the id of \<open>main\<close>, then every option applied in order.\<close>

definition apply_options :: "'s Resource \<Rightarrow> HandleInputOption list \<Rightarrow> HandleInputOptions" where
  "apply_options main opts = foldl (\<lambda>hio o'. o' hio) \<lparr>opt_id = ID (Metadata main)\<rparr> opts"

definition HandleInput ::
  "('st, 't) ReaderWriter \<Rightarrow> 'st \<Rightarrow> string \<Rightarrow> 's Resource \<Rightarrow> HandleInputOption list
     \<Rightarrow> (error + 't Resource option) \<times> 'st \<times> Call list" where
  "HandleInput r st finalizer main opts =
     (let options = apply_options main opts in
      case ReaderGetByID r st (opt_id options) of
        Inl err \<Rightarrow>
          if IsNotFoundError err then (Inr None, st, [CallGet (opt_id options)])
          else (Inl err, st, [CallGet (opt_id options)])
      | Inr res \<Rightarrow>
          if Phase (Metadata res) = PhaseTearingDown \<or> Phase (Metadata main) = PhaseTearingDown
          then
            (case RemoveFinalizer r st (Metadata res) finalizer of
               (rerr, st') \<Rightarrow>
                 (let calls = [CallGet (opt_id options), CallRemoveFinalizer (Metadata res) finalizer];
                      after = (if Phase (Metadata res) = PhaseTearingDown then Inr None
                               else Inr (Some res))
                  in case rerr of
                       Some err \<Rightarrow>
                         if \<not> IsNotFoundError err then (Inl err, st', calls)
                         else (after, st', calls)
                     | None \<Rightarrow> (after, st', calls)))
          else if finalizer \<notin> set (Finalizers (Metadata res))
          then
            (case AddFinalizer r st (Metadata res) finalizer of
               (aerr, st') \<Rightarrow>
                 (let calls = [CallGet (opt_id options), CallAddFinalizer (Metadata res) finalizer]
                  in case aerr of
                       Some err \<Rightarrow> (Inl err, st', calls)
                     | None \<Rightarrow> (Inr (Some res), st', calls)))
          else (Inr (Some res), st, [CallGet (opt_id options)]))"

text \<open>
  An in-memory runtime state, used to run \<open>HandleInput\<close> on examples: the resources
  of the dependent type by id. The finalizer operations fail with a not-found error on
  a missing resource and otherwise update the finalizers of the stored resource.
\<close>

definition mem_ReaderWriter :: "((string \<times> 't Resource) list, 't) ReaderWriter" where
  "mem_ReaderWriter =
     \<lparr>ReaderGetByID = (\<lambda>st i. case map_of st i of
                                 None \<Rightarrow> Inl (ErrNotFound i)
                               | Some res \<Rightarrow> Inr res),
      RemoveFinalizer = (\<lambda>st md fin. case map_of st (ID md) of
                                 None \<Rightarrow> (Some (ErrNotFound (ID md)), st)
                               | Some res \<Rightarrow>
                                   (None, AList.update (ID md)
                                      (res\<lparr>Metadata := (Metadata res)
                                         \<lparr>Finalizers := removeAll fin (Finalizers (Metadata res))\<rparr>\<rparr>) st)),
      AddFinalizer = (\<lambda>st md fin. case map_of st (ID md) of
                                 None \<Rightarrow> (Some (ErrNotFound (ID md)), st)
                               | Some res \<Rightarrow>
                                   (None, AList.update (ID md)
                                      (res\<lparr>Metadata := (Metadata res)
                                         \<lparr>Finalizers := List.insert fin (Finalizers (Metadata res))\<rparr>\<rparr>) st))\<rparr>"

section \<open>Choosing the Talos client\<close>

text \<open>
  The stage of a machine status event is an enumeration of the Talos machine API; the
  status of a machine status snapshot is a pointer to such an event, which may be nil.
\<close>

datatype MachineStage =
  UNKNOWN | BOOTING | INSTALLING | MAINTENANCE | RUNNING | REBOOTING
| SHUTTING_DOWN | RESETTING | UPGRADING

record MachineStatusEvent =
  Stage :: MachineStage

record MachineStatusSnapshotSpec =
  MachineStatus :: "MachineStatusEvent option"

record TLSConfig =
  InsecureSkipVerify :: bool

text \<open>
  \<open>omni.NewTalosClientConfig\<close> builds the client configuration from the TalosConfig
  resource of the cluster and a list of endpoints; the configuration is kept as the
  pair of its arguments. The options of \<open>client.New\<close> are the three the function
  builds and the socket options, which \<open>talos.GetSocketOptions\<close> chooses.
\<close>

datatype 'tc ClientConfig = NewTalosClientConfig "'tc Resource" "string list"

datatype 'tc OptionFunc =
  WithTLSConfig TLSConfig
| WithEndpoints "string list"
| WithConfig "'tc ClientConfig"
| SocketOption string

text \<open>A Go slice that may be nil; \<open>append\<close> to a nil slice starts a new one.\<close>

definition append_slice :: "'a list option \<Rightarrow> 'a list \<Rightarrow> 'a list" where
  "append_slice s xs = (case s of None \<Rightarrow> xs | Some ys \<Rightarrow> ys @ xs)"

text \<open>
  What the function takes from outside the files at hand: \<open>talos.GetSocketOptions\<close>,
  \<open>client.New\<close> of the Talos machinery, which may fail, and the label key
  \<open>omni.LabelCluster\<close>.
\<close>

record ('tc, 'c) TalosDeps =
  GetSocketOptions :: "string \<Rightarrow> 'tc OptionFunc list option"
  client_New :: "'tc OptionFunc list \<Rightarrow> error + 'c"
  LabelCluster :: string

text \<open>
  \<open>controller.Reader\<close>, by the two lookups the function makes: the machine status
  snapshot by machine id and the TalosConfig by cluster name.
\<close>

record 'tc Reader =
  GetMachineStatusSnapshot :: "string \<Rightarrow> error + MachineStatusSnapshotSpec Resource"
  GetTalosConfig :: "string \<Rightarrow> error + 'tc Resource"

text \<open>A call returns its two results, or panics on a nil pointer.\<close>

datatype 'a go_result = Returns 'a | Panics

definition createInsecureClient ::
  "('tc, 'c) TalosDeps \<Rightarrow> 'tc OptionFunc list option \<Rightarrow> string \<Rightarrow> error + 'c" where
  "createInsecureClient deps opts address =
     client_New deps
       (append_slice opts [WithTLSConfig \<lparr>InsecureSkipVerify = True\<rparr>, WithEndpoints [address]])"

definition GetTalosClient ::
  "('tc, 'c) TalosDeps \<Rightarrow> 'tc Reader \<Rightarrow> string \<Rightarrow> 'm Resource option
     \<Rightarrow> (error + 'c) go_result" where
  "GetTalosClient deps r address machineResource =
     (let opts = GetSocketOptions deps address in
      case machineResource of
        None \<Rightarrow> Returns (createInsecureClient deps opts address)
      | Some machine \<Rightarrow>
         (case (case GetMachineStatusSnapshot r (ID (Metadata machine)) of
                  Inl err \<Rightarrow> (None, Some err)
                | Inr snapshot \<Rightarrow> (Some snapshot, None)) of
            (machineStatusSnapshot, err) \<Rightarrow>
              let proceed =
                (case (case machineStatusSnapshot of
                         None \<Rightarrow> Returns False
                       | Some snapshot \<Rightarrow>
                           (case MachineStatus (TypedSpec snapshot) of
                              None \<Rightarrow> Panics
                            | Some event \<Rightarrow> Returns (Stage event = MAINTENANCE))) of
                   Panics \<Rightarrow> Panics
                 | Returns True \<Rightarrow> Returns (createInsecureClient deps opts address)
                 | Returns False \<Rightarrow>
                    (case kv_Get (Labels (Metadata machine)) (LabelCluster deps) of
                       None \<Rightarrow> Returns (createInsecureClient deps opts address)
                     | Some clusterName \<Rightarrow>
                        (case GetTalosConfig r clusterName of
                           Inl err \<Rightarrow>
                             if \<not> IsNotFoundError err
                             then Returns (Inl (ErrWrap
                                    (''cluster '' @ [CHR 0x27] @ clusterName @ [CHR 0x27]
                                       @ '' failed to get talosconfig: '') err))
                             else Returns (createInsecureClient deps opts address)
                         | Inr talosConfig \<Rightarrow>
                            (let endpoints = (if opts = None then [address] else []);
                                 config = NewTalosClientConfig talosConfig endpoints
                             in case client_New deps (append_slice opts [WithConfig config]) of
                                  Inl err \<Rightarrow>
                                    Returns (Inl (ErrWrap
                                      (''failed to create client to machine '' @ [CHR 0x27]
                                         @ ID (Metadata machine) @ [CHR 0x27] @ '': '') err))
                                | Inr result \<Rightarrow> Returns (Inr result)))))
              in case err of
                   Some e \<Rightarrow> if \<not> IsNotFoundError e then Returns (Inl e) else proceed
                 | None \<Rightarrow> proceed))"

section \<open>Compressing config patches\<close>

text \<open>
  A config patch holds its data uncompressed or compressed. \<open>GetUncompressedData\<close>
  and \<open>SetUncompressedData\<close> are methods of the patch spec declared in the \<open>specs\<close>
  package, outside the files at hand: they are the two operations of a codec. Reading
  may fail; writing changes the spec and may fail. A byte slice that may be nil is an
  optional list.
\<close>

record ConfigPatchSpec =
  Data :: string
  CompressedData :: "byte list option"

record Codec =
  GetUncompressedData :: "ConfigPatchSpec \<Rightarrow> error + byte list"
  SetUncompressedData :: "ConfigPatchSpec \<Rightarrow> byte list \<Rightarrow> error option \<times> ConfigPatchSpec"

record ClusterMachineConfigPatchesSpec =
  CompressedPatches :: "byte list list"

definition len :: "'a list option \<Rightarrow> nat" where
  "len s = (case s of None \<Rightarrow> 0 | Some xs \<Rightarrow> length xs)"

text \<open>
  \<open>len(bytes.TrimSpace(s)) == 0\<close>: the slice trimmed of leading and trailing white
  space is empty exactly when \<open>s\<close> decodes (as UTF-8) to white space only. The white
  space of \<open>unicode.IsSpace\<close> is tab, line feed, vertical tab, form feed, carriage
  return, space, U+0085, U+00A0, U+1680, U+2000 to U+200A, U+2028, U+2029, U+202F,
  U+205F and U+3000; the function reads one encoded white space after the other.
\<close>

fun only_space :: "byte list \<Rightarrow> bool" where
  "only_space [] = True"
| "only_space [b] = ((9 \<le> b \<and> b \<le> 13) \<or> b = 32)"
| "only_space [b, c] =
     (if (9 \<le> b \<and> b \<le> 13) \<or> b = 32 then only_space [c]
      else b = 0xC2 \<and> (c = 0x85 \<or> c = 0xA0))"
| "only_space (b # c # d # rest) =
     (if (9 \<le> b \<and> b \<le> 13) \<or> b = 32 then only_space (c # d # rest)
      else if b = 0xC2 then (c = 0x85 \<or> c = 0xA0) \<and> only_space (d # rest)
      else if b = 0xE1 then c = 0x9A \<and> d = 0x80 \<and> only_space rest
      else if b = 0xE2 then
        ((c = 0x80 \<and> ((0x80 \<le> d \<and> d \<le> 0x8A) \<or> d = 0xA8 \<or> d = 0xA9 \<or> d = 0xAF))
          \<or> (c = 0x81 \<and> d = 0x9F)) \<and> only_space rest
      else b = 0xE3 \<and> c = 0x80 \<and> d = 0x80 \<and> only_space rest)"

definition IsEmptyPatch :: "Codec \<Rightarrow> ConfigPatchSpec Resource \<Rightarrow> bool" where
  "IsEmptyPatch codec patch =
     (case GetUncompressedData codec (TypedSpec patch) of
        Inl err \<Rightarrow> False
      | Inr buffer \<Rightarrow> only_space buffer)"

text \<open>
  \<open>getCompressed\<close> returns a byte slice and an error, and may write the patch: the
  model returns the error, or the slice (\<open>None\<close> when nil), and the patch after the call.
\<close>

definition getCompressed ::
  "Codec \<Rightarrow> ConfigPatchSpec Resource
     \<Rightarrow> (error + byte list option) \<times> ConfigPatchSpec Resource" where
  "getCompressed codec patch =
     (if IsEmptyPatch codec patch then (Inr None, patch)
      else
        let compressedData = CompressedData (TypedSpec patch) in
        if len compressedData > 0 then (Inr compressedData, patch)
        else
          case GetUncompressedData codec (TypedSpec patch) of
            Inl err \<Rightarrow> (Inl err, patch)
          | Inr buffer \<Rightarrow>
              (case SetUncompressedData codec (TypedSpec patch) buffer of
                 (Some err, spec') \<Rightarrow> (Inl err, patch\<lparr>TypedSpec := spec'\<rparr>)
               | (None, spec') \<Rightarrow> (Inr (CompressedData spec'), patch\<lparr>TypedSpec := spec'\<rparr>)))"

text \<open>
  \<open>SetPatchesCompress\<close> appends to the compressed patches of \<open>res\<close> in place and
  returns an error or nil. The model returns the error, \<open>res\<close> as the call leaves it
  (also when it fails), and the patches as the call leaves them.
\<close>

fun SetPatchesCompress ::
  "Codec \<Rightarrow> ClusterMachineConfigPatchesSpec Resource \<Rightarrow> ConfigPatchSpec Resource list
     \<Rightarrow> error option \<times> ClusterMachineConfigPatchesSpec Resource \<times> ConfigPatchSpec Resource list" where
  "SetPatchesCompress codec res [] = (None, res, [])"
| "SetPatchesCompress codec res (patch # rest) =
     (case getCompressed codec patch of
        (Inl err, patch') \<Rightarrow> (Some err, res, patch' # rest)
      | (Inr None, patch') \<Rightarrow>
          (case SetPatchesCompress codec res rest of
             (e, res', rest') \<Rightarrow> (e, res', patch' # rest'))
      | (Inr (Some compr), patch') \<Rightarrow>
          if length compr < 1024 \<and> IsEmptyPatch codec patch'
          then (case SetPatchesCompress codec res rest of
                  (e, res', rest') \<Rightarrow> (e, res', patch' # rest'))
          else (case SetPatchesCompress codec
                       (res\<lparr>TypedSpec := (TypedSpec res)
                          \<lparr>CompressedPatches := CompressedPatches (TypedSpec res) @ [compr]\<rparr>\<rparr>) rest of
                  (e, res', rest') \<Rightarrow> (e, res', patch' # rest')))"

text \<open>
  A codec to run the functions on examples: it keeps the data behind a one-byte
  header. Reading a spec without compressed data returns its plain data; reading
  compressed data that does not start with the header fails.
\<close>

definition header_codec :: Codec where
  "header_codec =
     \<lparr>GetUncompressedData = (\<lambda>spec. case CompressedData spec of
                                   None \<Rightarrow> Inr (bytes_of (Data spec))
                                 | Some [] \<Rightarrow> Inl (ErrOther ''unexpected end of data'')
                                 | Some (h # body) \<Rightarrow>
                                     if h = 0x5A then Inr body
                                     else Inl (ErrOther ''invalid header'')),
      SetUncompressedData = (\<lambda>spec data.
                                 (None, spec\<lparr>Data := [], CompressedData := Some (0x5A # data)\<rparr>))\<rparr>"

section \<open>Notions used to state the properties\<close>

text \<open>
  The tokens joined by the delimiter, as the description of the fingerprint has it:
  the tokens in input order, separated by a comma.
\<close>

fun joined :: "string list \<Rightarrow> string" where
  "joined [] = []"
| "joined [v] = v"
| "joined (v # w # vs) = v @ '','' @ joined (w # vs)"


text \<open>
  The lookup of the machine status snapshot lets \<open>GetTalosClient\<close> go on to the
  cluster label: the snapshot is not found, or it is found with a status whose stage
  is not maintenance.
\<close>

definition snapshot_allows :: "'tc Reader \<Rightarrow> 'm Resource \<Rightarrow> bool" where
  "snapshot_allows r machine =
     (case GetMachineStatusSnapshot r (ID (Metadata machine)) of
        Inl err \<Rightarrow> IsNotFoundError err
      | Inr snapshot \<Rightarrow>
          (case MachineStatus (TypedSpec snapshot) of
             None \<Rightarrow> False
           | Some event \<Rightarrow> Stage event \<noteq> MAINTENANCE))"

text \<open>
  What is expected of a codec on a patch: its data can be read, and unless the patch
  already carries compressed bytes, writing the data back succeeds, leaves compressed
  bytes, and they read back as the same data.
\<close>

definition writes_back :: "Codec \<Rightarrow> ConfigPatchSpec \<Rightarrow> byte list \<Rightarrow> bool" where
  "writes_back codec spec d =
     (case SetUncompressedData codec spec d of
        (Some err, spec') \<Rightarrow> False
      | (None, spec') \<Rightarrow> len (CompressedData spec') > 0 \<and> GetUncompressedData codec spec' = Inr d)"

definition well_behaved :: "Codec \<Rightarrow> ConfigPatchSpec Resource \<Rightarrow> bool" where
  "well_behaved codec patch =
     (case GetUncompressedData codec (TypedSpec patch) of
        Inl err \<Rightarrow> False
      | Inr d \<Rightarrow> len (CompressedData (TypedSpec patch)) > 0 \<or> writes_back codec (TypedSpec patch) d)"

definition bytes_of_slice :: "byte list option \<Rightarrow> byte list" where
  "bytes_of_slice s = (case s of None \<Rightarrow> [] | Some bs \<Rightarrow> bs)"

text \<open>
  The compressed bytes of a patch: the ones it carries, or else the ones the codec
  leaves when the data of the patch is written back.
\<close>

definition compressed_form :: "Codec \<Rightarrow> ConfigPatchSpec Resource \<Rightarrow> byte list" where
  "compressed_form codec patch =
     (if len (CompressedData (TypedSpec patch)) > 0
      then bytes_of_slice (CompressedData (TypedSpec patch))
      else case GetUncompressedData codec (TypedSpec patch) of
             Inl err \<Rightarrow> []
           | Inr d \<Rightarrow>
               bytes_of_slice (CompressedData (snd (SetUncompressedData codec (TypedSpec patch) d))))"

section \<open>Example resources\<close>

definition ex_md :: "string \<Rightarrow> string \<Rightarrow> Metadata" where
  "ex_md ty i = \<lparr>Type = ty, ID = i, Version = ''1'', Phase = PhaseRunning,
                 Labels = [], Annotations = [], Finalizers = []\<rparr>"

definition ex_out :: "unit Resource" where
  "ex_out = \<lparr>Metadata = (ex_md ''ClusterMachineConfigs.omni.sidero.dev'' ''m1'')
               \<lparr>Labels := [(''cluster'', ''c1'')], Annotations := [(''owner'', ''x'')]\<rparr>,
             TypedSpec = ()\<rparr>"

definition ex_input :: "string \<Rightarrow> unit Resource" where
  "ex_input i = \<lparr>Metadata = ex_md ''T'' i, TypedSpec = ()\<rparr>"

definition ex_store :: "unit Store" where
  "ex_store a = (if a = 0 then ex_out else ex_input ''a'')"

definition ex_target :: "unit Resource" where
  "ex_target = \<lparr>Metadata = (ex_md ''Machines.omni.sidero.dev'' ''m1'')
                  \<lparr>Labels := [(''a'', ''1''), (''sidero.dev/x'', ''y'')]\<rparr>,
                TypedSpec = ()\<rparr>"

definition ex_owner :: "Phase \<Rightarrow> unit Resource" where
  "ex_owner ph = \<lparr>Metadata = (ex_md ''Machines.omni.sidero.dev'' ''m1'')\<lparr>Phase := ph\<rparr>,
                  TypedSpec = ()\<rparr>"

definition ex_dep :: "string \<Rightarrow> Phase \<Rightarrow> string list \<Rightarrow> unit Resource" where
  "ex_dep i ph fins =
     \<lparr>Metadata = (ex_md ''MachineStatuses.omni.sidero.dev'' i)\<lparr>Phase := ph, Finalizers := fins\<rparr>,
      TypedSpec = ()\<rparr>"

definition ex_deps :: "(unit, unit OptionFunc list) TalosDeps" where
  "ex_deps = \<lparr>GetSocketOptions = (\<lambda>address. None),
              client_New = (\<lambda>opts. Inr opts),
              LabelCluster = ''omni.sidero.dev/cluster''\<rparr>"

definition ex_snapshot :: "MachineStage \<Rightarrow> MachineStatusSnapshotSpec Resource" where
  "ex_snapshot stage =
     \<lparr>Metadata = ex_md ''MachineStatusSnapshots.omni.sidero.dev'' ''m1'',
      TypedSpec = \<lparr>MachineStatus = Some \<lparr>Stage = stage\<rparr>\<rparr>\<rparr>"

definition ex_talosconfig :: "unit Resource" where
  "ex_talosconfig = \<lparr>Metadata = ex_md ''TalosConfigs.omni.sidero.dev'' ''c1'', TypedSpec = ()\<rparr>"

definition ex_reader :: "MachineStage \<Rightarrow> bool \<Rightarrow> unit Reader" where
  "ex_reader stage issued =
     \<lparr>GetMachineStatusSnapshot = (\<lambda>i. Inr (ex_snapshot stage)),
      GetTalosConfig = (\<lambda>c. if issued then Inr ex_talosconfig else Inl (ErrNotFound c))\<rparr>"

text \<open>A snapshot as a new resource has it: found in the store, its status not set.\<close>

definition ex_snapshot_no_status :: "MachineStatusSnapshotSpec Resource" where
  "ex_snapshot_no_status =
     \<lparr>Metadata = ex_md ''MachineStatusSnapshots.omni.sidero.dev'' ''m1'',
      TypedSpec = \<lparr>MachineStatus = None\<rparr>\<rparr>"

definition ex_reader_no_status :: "bool \<Rightarrow> unit Reader" where
  "ex_reader_no_status issued =
     \<lparr>GetMachineStatusSnapshot = (\<lambda>i. Inr ex_snapshot_no_status),
      GetTalosConfig = (\<lambda>c. if issued then Inr ex_talosconfig else Inl (ErrNotFound c))\<rparr>"


definition ex_machine :: "KV \<Rightarrow> unit Resource" where
  "ex_machine labels =
     \<lparr>Metadata = (ex_md ''Machines.omni.sidero.dev'' ''m1'')\<lparr>Labels := labels\<rparr>, TypedSpec = ()\<rparr>"

definition ex_patch :: "string \<Rightarrow> byte list option \<Rightarrow> ConfigPatchSpec Resource" where
  "ex_patch d c =
     \<lparr>Metadata = ex_md ''ConfigPatches.omni.sidero.dev'' ''p'',
      TypedSpec = \<lparr>Data = d, CompressedData = c\<rparr>\<rparr>"

definition ex_res :: "byte list list \<Rightarrow> ClusterMachineConfigPatchesSpec Resource" where
  "ex_res cs =
     \<lparr>Metadata = ex_md ''ClusterMachineConfigPatches.omni.sidero.dev'' ''m1'',
      TypedSpec = \<lparr>CompressedPatches = cs\<rparr>\<rparr>"

section \<open>Facts about the key/value collections\<close>

lemma kv_Get_Set: "kv_Get (kv_Set k v m) k' = (if k' = k then Some v else kv_Get m k')"
  by (simp add: kv_Get_def kv_Set_def update_conv')

lemma kv_Get_Delete: "kv_Get (kv_Delete k m) k' = (if k' = k then None else kv_Get m k')"
  by (simp add: kv_Get_def kv_Delete_def delete_conv')

section \<open>The digest of the input versions\<close>

text \<open>SHA-256 of the three bytes \<open>abc\<close>, the first test vector of the standard.\<close>

lemma sha256_abc:
  "EncodeToString (sha256_Sum (bytes_of ''abc'')) =
     ''ba7816bf8f01cfea414140de5dae2223b00361a396177a9cb410ff61f20015ad''"
  by code_simp

lemma joined_Cons: "joined (v # vs) = v @ (if vs = [] then [] else '','' @ joined vs)"
  by (cases vs) simp_all

lemma write_versions_joined:
  "write_versions i vs h =
     h @ bytes_of ((if i > 0 \<and> vs \<noteq> [] then '','' else []) @ joined vs)"
proof (induction vs arbitrary: i h)
  case Nil
  then show ?case by (simp add: bytes_of_def)
next
  case (Cons v vs)
  show ?case
    by (simp add: Cons.IH joined_Cons hash_Write_def bytes_of_def)
qed

lemma inVersion_joined: "inVersion vs = EncodeToString (sha256_Sum (bytes_of (joined vs)))"
  by (simp add: inVersion_def write_versions_joined sha256_New_def)

lemma unat_of_char: "unat (of_char c :: byte) = of_char c"
proof -
  have "(of_char c :: byte) = of_nat (of_char c)"
    by (simp add: of_nat_of_char)
  then have "unat (of_char c :: byte) = of_char c mod 256"
    by (simp only: unat_of_nat) simp
  then show ?thesis
    using nat_of_char_less_256 [of c] by simp
qed

lemma of_char_byte_inj: "(of_char c :: byte) = of_char d \<Longrightarrow> c = d"
proof -
  assume "(of_char c :: byte) = of_char d"
  then have "unat (of_char c :: byte) = unat (of_char d :: byte)" by simp
  then have "(of_char c :: nat) = of_char d" by (simp only: unat_of_char)
  then show "c = d" by simp
qed

lemma bytes_of_inj: "bytes_of a = bytes_of b \<Longrightarrow> a = b"
  unfolding bytes_of_def
  by (rule map_injective) (auto simp: inj_on_def dest: of_char_byte_inj)

lemma byte_nibbles: "(b :: byte) = push_bit 4 (drop_bit 4 b) + (b AND 0x0f)"
  using bits_ident [of 4 b] by (simp add: take_bit_eq_mask mask_eq_exp_minus_1)

lemma nibbles_inj:
  "drop_bit 4 (b :: byte) = drop_bit 4 b' \<Longrightarrow> b AND 0x0f = b' AND 0x0f \<Longrightarrow> b = b'"
  using byte_nibbles [of b] byte_nibbles [of b'] by simp

lemma hi_nibble_less: "unat (drop_bit 4 (b :: byte)) < 16"
proof -
  have "unat (drop_bit 4 b) = unat b div 16"
    by (simp add: drop_bit_eq_div unat_div)
  moreover have "unat b < 256"
    using unsigned_less [of b] by simp
  ultimately show ?thesis by simp
qed

lemma lo_nibble_less: "unat ((b :: byte) AND 0x0f) < 16"
proof -
  have "unat (b AND 15) \<le> unat (15 :: byte)"
    by (rule word_and_le1 [THEN word_le_nat_alt [THEN iffD1]])
  then show ?thesis by simp
qed

lemma hextable_inj:
  "i < 16 \<Longrightarrow> j < 16 \<Longrightarrow> hextable ! i = hextable ! j \<Longrightarrow> i = j"
proof -
  have "distinct hextable" "length hextable = 16"
    by (simp_all add: hextable_def)
  then show "i < 16 \<Longrightarrow> j < 16 \<Longrightarrow> hextable ! i = hextable ! j \<Longrightarrow> i = j"
    by (simp add: nth_eq_iff_index_eq)
qed

lemma EncodeToString_inj: "EncodeToString a = EncodeToString b \<Longrightarrow> a = b"
proof (induction a arbitrary: b)
  case Nil
  then show ?case by (cases b) (simp_all add: EncodeToString_def)
next
  case (Cons x xs)
  from Cons.prems obtain y ys where b: "b = y # ys"
    by (cases b) (simp_all add: EncodeToString_def)
  from Cons.prems b have hi: "hextable ! unat (drop_bit 4 x) = hextable ! unat (drop_bit 4 y)"
    and lo: "hextable ! unat (x AND 0x0f) = hextable ! unat (y AND 0x0f)"
    and rest: "EncodeToString xs = EncodeToString ys"
    by (simp_all add: EncodeToString_def)
  have "unat (drop_bit 4 x) = unat (drop_bit 4 y)"
    using hextable_inj [OF hi_nibble_less hi_nibble_less hi] .
  then have hi': "drop_bit 4 x = drop_bit 4 y"
    by (simp only: word_unat_eq_iff)
  have "unat (x AND 0x0f) = unat (y AND 0x0f)"
    using hextable_inj [OF lo_nibble_less lo_nibble_less lo] .
  then have lo': "x AND 0x0f = y AND 0x0f"
    by (simp only: word_unat_eq_iff)
  have "x = y"
    by (rule nibbles_inj [OF hi' lo'])
  with Cons.IH [OF rest] b show ?case by simp
qed

lemma takeWhile_upto: "c \<notin> set v \<Longrightarrow> takeWhile (\<lambda>x. x \<noteq> c) (v @ c # r) = v"
  by (induction v) auto

lemma takeWhile_all: "c \<notin> set v \<Longrightarrow> takeWhile (\<lambda>x. x \<noteq> c) v = v"
  by (induction v) auto

lemma dropWhile_upto: "c \<notin> set v \<Longrightarrow> dropWhile (\<lambda>x. x \<noteq> c) (v @ c # r) = c # r"
  by (induction v) auto

lemma dropWhile_all: "c \<notin> set v \<Longrightarrow> dropWhile (\<lambda>x. x \<noteq> c) v = []"
  by (induction v) auto

lemma takeWhile_joined:
  "CHR '','' \<notin> set v \<Longrightarrow> takeWhile (\<lambda>c. c \<noteq> CHR '','') (joined (v # vs)) = v"
  by (cases vs) (simp_all add: takeWhile_upto takeWhile_all)

lemma dropWhile_joined:
  "CHR '','' \<notin> set v \<Longrightarrow>
   dropWhile (\<lambda>c. c \<noteq> CHR '','') (joined (v # vs)) = (if vs = [] then [] else '','' @ joined vs)"
  by (cases vs) (simp_all add: dropWhile_upto dropWhile_all)

lemma joined_inj:
  assumes "vs \<noteq> []" "ws \<noteq> []"
    and "\<forall>v\<in>set vs \<union> set ws. CHR '','' \<notin> set v"
    and "joined vs = joined ws"
  shows "vs = ws"
  using assms
proof (induction vs arbitrary: ws)
  case Nil
  then show ?case by simp
next
  case (Cons v vs)
  from Cons.prems(2) obtain w ws' where ws: "ws = w # ws'" by (cases ws) auto
  have cv: "CHR '','' \<notin> set v" and cw: "CHR '','' \<notin> set w"
    using Cons.prems(3) ws by auto
  have "takeWhile (\<lambda>c. c \<noteq> CHR '','') (joined (v # vs)) =
        takeWhile (\<lambda>c. c \<noteq> CHR '','') (joined (w # ws'))"
    using Cons.prems(4) ws by simp
  then have vw: "v = w"
    by (simp only: takeWhile_joined [OF cv] takeWhile_joined [OF cw])
  have "dropWhile (\<lambda>c. c \<noteq> CHR '','') (joined (v # vs)) =
        dropWhile (\<lambda>c. c \<noteq> CHR '','') (joined (w # ws'))"
    using Cons.prems(4) ws by simp
  then have tl: "(if vs = [] then [] else '','' @ joined vs) =
                 (if ws' = [] then [] else '','' @ joined ws')"
    by (simp only: dropWhile_joined [OF cv] dropWhile_joined [OF cw])
  show ?case
  proof (cases "vs = []")
    case True
    with tl have "ws' = []" by (auto split: if_splits)
    with True vw ws show ?thesis by simp
  next
    case False
    with tl have ne: "ws' \<noteq> []" and j: "joined vs = joined ws'"
      by (auto split: if_splits)
    have "vs = ws'"
      using Cons.IH [OF False ne _ j] Cons.prems(3) ws by auto
    with vw ws show ?thesis by simp
  qed
qed

lemma UpdateInputsAnnotation_changed:
  "fst (UpdateInputsAnnotation out versions) =
     (kv_Get (Annotations (Metadata out)) InputResourceVersionAnnotation \<noteq> Some (inVersion versions))"
  by (auto simp: UpdateInputsAnnotation_def Let_def split: option.splits)

lemma UpdateInputsAnnotation_stored:
  "kv_Get (Annotations (Metadata (snd (UpdateInputsAnnotation out versions))))
     InputResourceVersionAnnotation = Some (inVersion versions)"
  by (auto simp: UpdateInputsAnnotation_def Let_def kv_Get_Set split: option.splits)

lemma UpdateInputsAnnotation_result:
  "snd (UpdateInputsAnnotation out versions) = out \<or>
   snd (UpdateInputsAnnotation out versions) =
     out\<lparr>Metadata := (Metadata out)
        \<lparr>Annotations := kv_Set InputResourceVersionAnnotation (inVersion versions)
                            (Annotations (Metadata out))\<rparr>\<rparr>"
  by (simp add: UpdateInputsAnnotation_def Let_def split: option.splits)

text \<open>
  C4. The digest is deterministic, but the claim that any change to the order or the
  value of a token changes it fails: the tokens are joined by commas without escaping,
  so the sequences \<open>["x", "x,x"]\<close> and \<open>["x,x", "x"]\<close>, which differ only in
  order, are hashed as the same bytes \<open>x,x,x\<close> and always get the same digest. The
  same happens through \<open>UpdateInputsVersions\<close> for two inputs whose tokens are
  \<open>T/a@1\<close> and \<open>T/a@1,T/a@1\<close>.
\<close>

theorem inVersion_order_collision:
  "[''x'', ''x,x''] \<noteq> [''x,x'', ''x'']
   \<and> kv_Get (Annotations (Metadata (snd (UpdateInputsAnnotation ex_out [''x'', ''x,x''])))) 
         InputResourceVersionAnnotation =
       kv_Get (Annotations (Metadata (snd (UpdateInputsAnnotation ex_out [''x,x'', ''x'']))))
         InputResourceVersionAnnotation
   \<and> kv_Get (Annotations (Metadata (snd (UpdateInputsVersions ex_out
           [ex_input ''a'', ex_input ''a@1,T/a'']))))
         InputResourceVersionAnnotation =
       kv_Get (Annotations (Metadata (snd (UpdateInputsVersions ex_out
           [ex_input ''a@1,T/a'', ex_input ''a'']))))
         InputResourceVersionAnnotation"
  by (simp add: UpdateInputsAnnotation_stored UpdateInputsVersions_def inVersion_joined
        version_token_def ex_input_def ex_md_def)

text \<open>
  C4, as amended. After the call the annotation holds the hexadecimal SHA-256 of the
  tokens joined by commas, so equal sequences give equal digests; two digests are
  equal exactly when SHA-256 agrees on the two joined strings; and two different
  non-empty sequences of tokens without a comma have different joined strings, so
  that their digests are equal only if SHA-256 collides on them.
\<close>

theorem inVersion_joined_versions:
  "kv_Get (Annotations (Metadata (snd (UpdateInputsAnnotation out versions))))
       InputResourceVersionAnnotation =
     Some (EncodeToString (sha256_Sum (bytes_of (joined versions))))
   \<and> (inVersion vs = inVersion ws \<longleftrightarrow>
        sha256_Sum (bytes_of (joined vs)) = sha256_Sum (bytes_of (joined ws)))
   \<and> (vs \<noteq> [] \<and> ws \<noteq> [] \<and> (\<forall>v\<in>set vs \<union> set ws. CHR '','' \<notin> set v) \<and> vs \<noteq> ws \<longrightarrow>
        bytes_of (joined vs) \<noteq> bytes_of (joined ws))"
proof -
  have "bytes_of (joined vs) \<noteq> bytes_of (joined ws)"
    if "vs \<noteq> []" "ws \<noteq> []" "\<forall>v\<in>set vs \<union> set ws. CHR '','' \<notin> set v" "vs \<noteq> ws"
    using joined_inj [OF that(1,2,3)] that(4) bytes_of_inj by blast
  moreover have "inVersion vs = inVersion ws \<longleftrightarrow>
        sha256_Sum (bytes_of (joined vs)) = sha256_Sum (bytes_of (joined ws))"
    using EncodeToString_inj by (auto simp: inVersion_joined)
  ultimately show ?thesis
    by (simp add: UpdateInputsAnnotation_stored inVersion_joined)
qed

theorem inVersion_joined_versions_witness:
  "[''v1'', ''v2'', ''v3''] \<noteq> [] \<and> [''v1'', ''v2b'', ''v3''] \<noteq> []
   \<and> CHR '','' \<notin> set ''v1'' \<and> CHR '','' \<notin> set ''v2'' \<and> CHR '','' \<notin> set ''v2b''
   \<and> CHR '','' \<notin> set ''v3''
   \<and> [''v1'', ''v2'', ''v3''] \<noteq> [''v1'', ''v2b'', ''v3'']
   \<and> joined [''v1'', ''v2'', ''v3''] = ''v1,v2,v3''
   \<and> bytes_of (joined [''v1'', ''v2'', ''v3'']) \<noteq> bytes_of (joined [''v1'', ''v2b'', ''v3''])"
  using inVersion_joined_versions [where out = ex_out and versions = "[]"
      and vs = "[''v1'', ''v2'', ''v3'']" and ws = "[''v1'', ''v2b'', ''v3'']"]
  by simp

text \<open>
  C5. \<open>UpdateInputsAnnotation\<close> returns true exactly when the stored
  \<open>inputResourceVersion\<close> annotation is absent or differs from the new digest, and
  false when it equals it; a second call with the same versions on the resource left
  by the first call returns false.
\<close>

theorem UpdateInputsAnnotation_reports_change:
  "fst (UpdateInputsAnnotation out versions) =
     (case kv_Get (Annotations (Metadata out)) InputResourceVersionAnnotation of
        None \<Rightarrow> True
      | Some version \<Rightarrow> version \<noteq> inVersion versions)
   \<and> fst (UpdateInputsAnnotation (snd (UpdateInputsAnnotation out versions)) versions) = False"
  by (simp add: UpdateInputsAnnotation_changed UpdateInputsAnnotation_stored split: option.splits)

text \<open>
  C9. A call of \<open>UpdateInputsAnnotation\<close> leaves \<open>out\<close> as it was but for its
  annotations, and every annotation under another key than \<open>inputResourceVersion\<close>
  as it was. In the store, \<open>UpdateInputsVersions\<close> changes no resource but \<open>out\<close>:
  the inputs are read only.
\<close>

theorem UpdateInputsAnnotation_frame:
  "snd (UpdateInputsAnnotation out versions) =
      out\<lparr>Metadata := (Metadata out)
        \<lparr>Annotations := Annotations (Metadata (snd (UpdateInputsAnnotation out versions)))\<rparr>\<rparr>
   \<and> (key \<noteq> InputResourceVersionAnnotation \<longrightarrow>
        kv_Get (Annotations (Metadata (snd (UpdateInputsAnnotation out versions)))) key =
        kv_Get (Annotations (Metadata out)) key)
   \<and> (a \<noteq> out_ref \<longrightarrow> snd (UpdateInputsVersions_ref store out_ref inputs) a = store a)
   \<and> snd (UpdateInputsVersions_ref store out_ref inputs) out_ref =
       snd (UpdateInputsAnnotation (store out_ref) (map version_token (map store inputs)))"
proof -
  have frame: "snd (UpdateInputsAnnotation out versions) =
      out\<lparr>Metadata := (Metadata out)
        \<lparr>Annotations := Annotations (Metadata (snd (UpdateInputsAnnotation out versions)))\<rparr>\<rparr>"
    using UpdateInputsAnnotation_result [of out versions] by auto
  have others: "kv_Get (Annotations (Metadata (snd (UpdateInputsAnnotation out versions)))) key =
        kv_Get (Annotations (Metadata out)) key" if "key \<noteq> InputResourceVersionAnnotation"
    using UpdateInputsAnnotation_result [of out versions] that by (auto simp: kv_Get_Set)
  have store: "snd (UpdateInputsVersions_ref store out_ref inputs) =
      store(out_ref := snd (UpdateInputsAnnotation (store out_ref) (map version_token (map store inputs))))"
    by (simp add: UpdateInputsVersions_ref_def UpdateInputsVersions_def split: prod.splits)
  show ?thesis
    using frame others by (simp add: store)
qed

theorem UpdateInputsAnnotation_frame_witness:
  "''owner'' \<noteq> InputResourceVersionAnnotation
   \<and> kv_Get (Annotations (Metadata (snd (UpdateInputsAnnotation ex_out [''v1''])))) ''owner'' = Some ''x''
   \<and> (1::nat) \<noteq> 0
   \<and> snd (UpdateInputsVersions_ref ex_store 0 [1]) 1 = ex_input ''a''"
  using UpdateInputsAnnotation_frame [where out = ex_out and versions = "[''v1'']"
      and key = "''owner''" and a = 1 and out_ref = 0 and store = ex_store and inputs = "[1]"]
  by (simp add: InputResourceVersionAnnotation_def ex_out_def ex_store_def kv_Get_def)

section \<open>User labels\<close>

lemma clear_loop_get:
  "kv_Get (clear_loop p es tmp) k =
     (if \<not> HasPrefix k p \<and> k \<in> fst ` set es then None else kv_Get tmp k)"
  by (induction es arbitrary: tmp) (force simp: kv_Get_Delete)+

lemma ClearUserLabels_get:
  "kv_Get (Labels (Metadata (ClearUserLabels p res))) k =
     (if HasPrefix k p then kv_Get (Labels (Metadata res)) k else None)"
proof -
  have "kv_Get (Labels (Metadata res)) k = None" if "k \<notin> fst ` set (Labels (Metadata res))"
    using that by (simp add: kv_Get_def map_of_eq_None_iff)
  then show ?thesis
    by (auto simp: ClearUserLabels_def clear_loop_get)
qed

lemma copy_loop_get:
  "distinct (map fst es) \<Longrightarrow>
   kv_Get (copy_loop p es tmp) k =
     (if \<not> HasPrefix k p \<and> k \<in> fst ` set es then map_of es k else kv_Get tmp k)"
proof (induction es arbitrary: tmp)
  case Nil
  then show ?case by simp
next
  case (Cons e es)
  obtain key v where e: "e = (key, v)" by (cases e)
  from Cons.prems have d: "distinct (map fst es)" and nk: "key \<notin> fst ` set es"
    by (auto simp: e)
  show ?case
    using Cons.IH [OF d] nk by (auto simp: e kv_Get_Set)
qed

text \<open>
  C6. After \<open>CopyUserLabels\<close>, a key with the system prefix has the label it had
  on the target, and a key without it has the label of the input map, or none when the
  input map has none; nothing else of the target changes. The entries of a Go map have
  distinct keys. The example: with user label \<open>a=1\<close> and system label
  \<open>sidero.dev/x=y\<close>, copying \<open>{b: 2}\<close> leaves exactly \<open>sidero.dev/x=y\<close> and
  \<open>b=2\<close>.
\<close>

theorem CopyUserLabels_replaces_user_labels:
  assumes "distinct (map fst labels)"
  shows "kv_Get (Labels (Metadata (CopyUserLabels SystemLabelPrefix target labels))) key =
           (if HasPrefix key SystemLabelPrefix then kv_Get (Labels (Metadata target)) key
            else kv_Get labels key)
         \<and> CopyUserLabels SystemLabelPrefix target labels =
             target\<lparr>Metadata := (Metadata target)
               \<lparr>Labels := Labels (Metadata (CopyUserLabels SystemLabelPrefix target labels))\<rparr>\<rparr>"
proof (cases labels)
  case Nil
  then show ?thesis
    using ClearUserLabels_get [of SystemLabelPrefix target key]
    by (simp add: CopyUserLabels_def) (simp add: ClearUserLabels_def kv_Get_def)
next
  case (Cons e es)
  have "kv_Get labels key = None" if "key \<notin> fst ` set labels"
    using that by (simp add: kv_Get_def map_of_eq_None_iff)
  then show ?thesis
    using assms Cons
    by (auto simp: CopyUserLabels_def Let_def copy_loop_get ClearUserLabels_get)
       (auto simp: kv_Get_def ClearUserLabels_def)
qed

theorem CopyUserLabels_replaces_user_labels_witness:
  "distinct (map fst [(''b'', ''2'')])
   \<and> HasPrefix ''sidero.dev/x'' ''sidero.dev/'' \<and> \<not> HasPrefix ''a'' ''sidero.dev/''
   \<and> \<not> HasPrefix ''b'' ''sidero.dev/''
   \<and> Labels (Metadata (CopyUserLabels ''sidero.dev/'' ex_target [(''b'', ''2'')])) =
       [(''sidero.dev/x'', ''y''), (''b'', ''2'')]
   \<and> kv_Get (Labels (Metadata (CopyUserLabels ''sidero.dev/'' ex_target [(''b'', ''2'')]))) ''a'' = None"
  using CopyUserLabels_replaces_user_labels [where labels = "[(''b'', ''2'')]"
      and SystemLabelPrefix = "''sidero.dev/''" and target = ex_target and key = "''a''"]
  by (simp add: CopyUserLabels_def ClearUserLabels_def HasPrefix_def kv_Delete_def kv_Set_def
        kv_Get_def ex_target_def ex_md_def)

section \<open>Guarded access to a dependent resource\<close>

lemma apply_options_default: "opt_id (apply_options main []) = ID (Metadata main)"
  by (simp add: apply_options_def)

lemma apply_options_WithID: "opt_id (apply_options main [WithID i]) = i"
  by (simp add: apply_options_def WithID_def)

text \<open>
  C1. The id looked up is the id of the owner unless \<open>WithID\<close> gives another.
  When the lookup reports not-found, \<open>HandleInput\<close> returns the zero value and no
  error, and calls nothing else. When the dependent or the owner is tearing down, it
  removes the finalizer from the dependent, and if that succeeds or reports
  not-found, returns the zero value when the dependent is tearing down and the
  dependent otherwise. When both are running, it returns the dependent, after adding
  the finalizer if the dependent does not have it.
\<close>

theorem HandleInput_state_machine:
  "opt_id (apply_options main []) = ID (Metadata main)
   \<and> opt_id (apply_options main [WithID i]) = i
   \<and> (ReaderGetByID r st (opt_id (apply_options main opts)) = Inl err \<and> IsNotFoundError err \<longrightarrow>
        HandleInput r st finalizer main opts =
          (Inr None, st, [CallGet (opt_id (apply_options main opts))]))
   \<and> (ReaderGetByID r st (opt_id (apply_options main opts)) = Inr res
        \<and> (Phase (Metadata res) = PhaseTearingDown \<or> Phase (Metadata main) = PhaseTearingDown)
        \<and> RemoveFinalizer r st (Metadata res) finalizer = (rerr, st')
        \<and> (case rerr of None \<Rightarrow> True | Some e \<Rightarrow> IsNotFoundError e) \<longrightarrow>
        HandleInput r st finalizer main opts =
          (if Phase (Metadata res) = PhaseTearingDown then Inr None else Inr (Some res), st',
           [CallGet (opt_id (apply_options main opts)), CallRemoveFinalizer (Metadata res) finalizer]))
   \<and> (ReaderGetByID r st (opt_id (apply_options main opts)) = Inr res
        \<and> Phase (Metadata res) = PhaseRunning \<and> Phase (Metadata main) = PhaseRunning
        \<and> finalizer \<in> set (Finalizers (Metadata res)) \<longrightarrow>
        HandleInput r st finalizer main opts =
          (Inr (Some res), st, [CallGet (opt_id (apply_options main opts))]))
   \<and> (ReaderGetByID r st (opt_id (apply_options main opts)) = Inr res
        \<and> Phase (Metadata res) = PhaseRunning \<and> Phase (Metadata main) = PhaseRunning
        \<and> finalizer \<notin> set (Finalizers (Metadata res))
        \<and> AddFinalizer r st (Metadata res) finalizer = (None, st') \<longrightarrow>
        HandleInput r st finalizer main opts =
          (Inr (Some res), st',
           [CallGet (opt_id (apply_options main opts)), CallAddFinalizer (Metadata res) finalizer]))"
  by (auto simp: HandleInput_def Let_def apply_options_default apply_options_WithID
           split: option.splits)

theorem HandleInput_state_machine_witness:
  "HandleInput mem_ReaderWriter [] ''ctrl'' (ex_owner PhaseRunning) [] =
     (Inr None, [], [CallGet ''m1''])
   \<and> HandleInput mem_ReaderWriter [(''m2'', ex_dep ''m2'' PhaseRunning [])] ''ctrl'' (ex_owner PhaseRunning)
       [WithID ''m2''] =
     (Inr (Some (ex_dep ''m2'' PhaseRunning [])), [(''m2'', ex_dep ''m2'' PhaseRunning [''ctrl''])],
      [CallGet ''m2'', CallAddFinalizer (Metadata (ex_dep ''m2'' PhaseRunning [])) ''ctrl''])
   \<and> HandleInput mem_ReaderWriter [(''m1'', ex_dep ''m1'' PhaseRunning [''ctrl''])] ''ctrl''
       (ex_owner PhaseTearingDown) [] =
     (Inr (Some (ex_dep ''m1'' PhaseRunning [''ctrl''])), [(''m1'', ex_dep ''m1'' PhaseRunning [])],
      [CallGet ''m1'', CallRemoveFinalizer (Metadata (ex_dep ''m1'' PhaseRunning [''ctrl''])) ''ctrl''])
   \<and> HandleInput mem_ReaderWriter [(''m1'', ex_dep ''m1'' PhaseTearingDown [''ctrl''])] ''ctrl''
       (ex_owner PhaseRunning) [] =
     (Inr None, [(''m1'', ex_dep ''m1'' PhaseTearingDown [])],
      [CallGet ''m1'', CallRemoveFinalizer (Metadata (ex_dep ''m1'' PhaseTearingDown [''ctrl''])) ''ctrl''])
   \<and> HandleInput mem_ReaderWriter [(''m1'', ex_dep ''m1'' PhaseRunning [''ctrl''])] ''ctrl''
       (ex_owner PhaseRunning) [] =
     (Inr (Some (ex_dep ''m1'' PhaseRunning [''ctrl''])), [(''m1'', ex_dep ''m1'' PhaseRunning [''ctrl''])],
      [CallGet ''m1''])"
  using
    HandleInput_state_machine [where main = "ex_owner PhaseRunning" and i = "''m2''"
      and r = mem_ReaderWriter and st = "[]" and opts = "[]" and err = "ErrNotFound ''m1''"
      and finalizer = "''ctrl''"]
    HandleInput_state_machine [where main = "ex_owner PhaseTearingDown" and i = "''m2''"
      and r = mem_ReaderWriter and st = "[(''m1'', ex_dep ''m1'' PhaseRunning [''ctrl''])]"
      and opts = "[]" and finalizer = "''ctrl''" and res = "ex_dep ''m1'' PhaseRunning [''ctrl'']"
      and rerr = None and st' = "[(''m1'', ex_dep ''m1'' PhaseRunning [])]"]
  by (simp add: HandleInput_def mem_ReaderWriter_def apply_options_def WithID_def ex_owner_def
        ex_dep_def ex_md_def)

lemma HandleInput_errors:
  "(ReaderGetByID r st (opt_id (apply_options main opts)) = Inl err \<and> \<not> IsNotFoundError err \<longrightarrow>
        HandleInput r st finalizer main opts =
          (Inl err, st, [CallGet (opt_id (apply_options main opts))]))
   \<and> (ReaderGetByID r st (opt_id (apply_options main opts)) = Inr res
        \<and> (Phase (Metadata res) = PhaseTearingDown \<or> Phase (Metadata main) = PhaseTearingDown)
        \<and> RemoveFinalizer r st (Metadata res) finalizer = (Some e, st')
        \<and> \<not> IsNotFoundError e \<longrightarrow>
        HandleInput r st finalizer main opts =
          (Inl e, st',
           [CallGet (opt_id (apply_options main opts)), CallRemoveFinalizer (Metadata res) finalizer]))
   \<and> (ReaderGetByID r st (opt_id (apply_options main opts)) = Inr res
        \<and> Phase (Metadata res) = PhaseRunning \<and> Phase (Metadata main) = PhaseRunning
        \<and> finalizer \<notin> set (Finalizers (Metadata res))
        \<and> AddFinalizer r st (Metadata res) finalizer = (Some e, st') \<longrightarrow>
        HandleInput r st finalizer main opts =
          (Inl e, st',
           [CallGet (opt_id (apply_options main opts)), CallAddFinalizer (Metadata res) finalizer]))"
  by (auto simp: HandleInput_def Let_def split: option.splits)

text \<open>
  C10. If \<open>HandleInput\<close> calls \<open>AddFinalizer\<close>, then the dependent was found, the
  call is for the dependent and the finalizer of this call, the dependent and the owner
  are both running, and the dependent does not have the finalizer yet.
\<close>

theorem HandleInput_adds_only_when_running:
  assumes "CallAddFinalizer md fin \<in> set (snd (snd (HandleInput r st finalizer main opts)))"
  shows "\<exists>res. ReaderGetByID r st (opt_id (apply_options main opts)) = Inr res
           \<and> md = Metadata res \<and> fin = finalizer
           \<and> Phase (Metadata res) = PhaseRunning \<and> Phase (Metadata main) = PhaseRunning
           \<and> finalizer \<notin> set (Finalizers (Metadata res))"
proof (cases "ReaderGetByID r st (opt_id (apply_options main opts))")
  case (Inl err)
  with assms show ?thesis
    by (auto simp: HandleInput_def Let_def split: if_splits)
next
  case (Inr res)
  have ph: "Phase (Metadata res) = PhaseRunning" "Phase (Metadata main) = PhaseRunning"
    using assms Inr
    by (cases "Phase (Metadata res)"; cases "Phase (Metadata main)";
        auto simp: HandleInput_def Let_def split: if_splits option.splits prod.splits)+
  show ?thesis
    using assms Inr ph
    by (auto simp: HandleInput_def Let_def split: if_splits option.splits prod.splits)
qed

theorem HandleInput_adds_only_when_running_witness:
  "CallAddFinalizer (Metadata (ex_dep ''m1'' PhaseRunning [])) ''ctrl''
     \<in> set (snd (snd (HandleInput mem_ReaderWriter [(''m1'', ex_dep ''m1'' PhaseRunning [])] ''ctrl''
                        (ex_owner PhaseRunning) [])))
   \<and> (\<exists>res. ReaderGetByID mem_ReaderWriter [(''m1'', ex_dep ''m1'' PhaseRunning [])]
               (opt_id (apply_options (ex_owner PhaseRunning) [])) = Inr res
           \<and> Metadata (ex_dep ''m1'' PhaseRunning []) = Metadata res
           \<and> Phase (Metadata res) = PhaseRunning
           \<and> Phase (Metadata (ex_owner PhaseRunning)) = PhaseRunning
           \<and> ''ctrl'' \<notin> set (Finalizers (Metadata res)))"
proof -
  have h: "CallAddFinalizer (Metadata (ex_dep ''m1'' PhaseRunning [])) ''ctrl''
     \<in> set (snd (snd (HandleInput mem_ReaderWriter [(''m1'', ex_dep ''m1'' PhaseRunning [])] ''ctrl''
                        (ex_owner PhaseRunning) [])))"
    by (simp add: HandleInput_def mem_ReaderWriter_def apply_options_def ex_owner_def
          ex_dep_def ex_md_def)
  from HandleInput_adds_only_when_running [OF h] h show ?thesis by blast
qed

section \<open>Choosing the Talos client\<close>


lemma GetTalosClient_nil:
  "GetTalosClient deps r address None =
     Returns (createInsecureClient deps (GetSocketOptions deps address) address)"
  by (simp add: GetTalosClient_def Let_def)


lemma GetTalosClient_nil_status:
  "GetMachineStatusSnapshot r (ID (Metadata machine)) = Inr snapshot \<Longrightarrow>
   MachineStatus (TypedSpec snapshot) = None \<Longrightarrow>
   GetTalosClient deps r address (Some machine) = Panics"
  by (simp add: GetTalosClient_def Let_def)

lemma GetTalosClient_maintenance:
  "GetMachineStatusSnapshot r (ID (Metadata machine)) = Inr snapshot \<Longrightarrow>
   MachineStatus (TypedSpec snapshot) = Some event \<Longrightarrow> Stage event = MAINTENANCE \<Longrightarrow>
   GetTalosClient deps r address (Some machine) =
     Returns (createInsecureClient deps (GetSocketOptions deps address) address)"
  by (simp add: GetTalosClient_def Let_def)

lemma GetTalosClient_past_snapshot:
  "snapshot_allows r machine \<Longrightarrow>
   GetTalosClient deps r address (Some machine) =
     (case kv_Get (Labels (Metadata machine)) (LabelCluster deps) of
        None \<Rightarrow> Returns (createInsecureClient deps (GetSocketOptions deps address) address)
      | Some clusterName \<Rightarrow>
         (case GetTalosConfig r clusterName of
            Inl err \<Rightarrow>
              if \<not> IsNotFoundError err
              then Returns (Inl (ErrWrap
                     (''cluster '' @ [CHR 0x27] @ clusterName @ [CHR 0x27]
                        @ '' failed to get talosconfig: '') err))
              else Returns (createInsecureClient deps (GetSocketOptions deps address) address)
          | Inr talosConfig \<Rightarrow>
              (case client_New deps (append_slice (GetSocketOptions deps address)
                      [WithConfig (NewTalosClientConfig talosConfig
                         (if GetSocketOptions deps address = None then [address] else []))]) of
                 Inl err \<Rightarrow>
                   Returns (Inl (ErrWrap
                     (''failed to create client to machine '' @ [CHR 0x27]
                        @ ID (Metadata machine) @ [CHR 0x27] @ '': '') err))
               | Inr result \<Rightarrow> Returns (Inr result))))"
  by (auto simp: snapshot_allows_def GetTalosClient_def Let_def
           split: sum.splits option.splits)

text \<open>
  The ladder of \<open>GetTalosClient\<close>, as far as the code has it. The insecure client
  is the one made with a TLS configuration that skips verification and the address as
  its endpoint. Without a machine resource the client is the insecure one; so it is
  when the snapshot of the machine reports the maintenance stage; when the snapshot
  lets the call go on (it is not found, or it carries a status whose stage is not
  maintenance) and the machine has no cluster label; and when it has one and the
  TalosConfig of the cluster is not found. Otherwise the client is built with the
  configuration made from the TalosConfig of the cluster.
\<close>

lemma GetTalosClient_ladder:
  "createInsecureClient deps (GetSocketOptions deps address) address =
     client_New deps (append_slice (GetSocketOptions deps address)
       [WithTLSConfig \<lparr>InsecureSkipVerify = True\<rparr>, WithEndpoints [address]])
   \<and> GetTalosClient deps r address (None :: 'm Resource option) =
     Returns (createInsecureClient deps (GetSocketOptions deps address) address)
   \<and> (GetMachineStatusSnapshot r (ID (Metadata (machine :: 'm Resource))) = Inr snapshot
        \<and> MachineStatus (TypedSpec snapshot) = Some event \<and> Stage event = MAINTENANCE \<longrightarrow>
      GetTalosClient deps r address (Some machine) =
        Returns (createInsecureClient deps (GetSocketOptions deps address) address))
   \<and> (snapshot_allows r machine
        \<and> kv_Get (Labels (Metadata machine)) (LabelCluster deps) = None \<longrightarrow>
      GetTalosClient deps r address (Some machine) =
        Returns (createInsecureClient deps (GetSocketOptions deps address) address))
   \<and> (snapshot_allows r machine
        \<and> kv_Get (Labels (Metadata machine)) (LabelCluster deps) = Some clusterName
        \<and> GetTalosConfig r clusterName = Inl err \<and> IsNotFoundError err \<longrightarrow>
      GetTalosClient deps r address (Some machine) =
        Returns (createInsecureClient deps (GetSocketOptions deps address) address))
   \<and> (snapshot_allows r machine
        \<and> kv_Get (Labels (Metadata machine)) (LabelCluster deps) = Some clusterName
        \<and> GetTalosConfig r clusterName = Inr talosConfig
        \<and> client_New deps (append_slice (GetSocketOptions deps address)
              [WithConfig (NewTalosClientConfig talosConfig
                 (if GetSocketOptions deps address = None then [address] else []))]) = Inr result \<longrightarrow>
      GetTalosClient deps r address (Some machine) = Returns (Inr result))"
  by (simp add: GetTalosClient_nil GetTalosClient_maintenance GetTalosClient_past_snapshot)
     (simp add: createInsecureClient_def)

lemma GetTalosClient_ladder_examples:
  "GetTalosClient ex_deps (ex_reader RUNNING True) ''10.5.0.2'' (None :: unit Resource option) =
     Returns (Inr [WithTLSConfig \<lparr>InsecureSkipVerify = True\<rparr>, WithEndpoints [''10.5.0.2'']])
   \<and> GetTalosClient ex_deps (ex_reader MAINTENANCE True) ''10.5.0.2''
        (Some (ex_machine [(''omni.sidero.dev/cluster'', ''c1'')])) =
     Returns (Inr [WithTLSConfig \<lparr>InsecureSkipVerify = True\<rparr>, WithEndpoints [''10.5.0.2'']])
   \<and> snapshot_allows (ex_reader RUNNING True) (ex_machine [])
   \<and> GetTalosClient ex_deps (ex_reader RUNNING True) ''10.5.0.2'' (Some (ex_machine [])) =
     Returns (Inr [WithTLSConfig \<lparr>InsecureSkipVerify = True\<rparr>, WithEndpoints [''10.5.0.2'']])
   \<and> GetTalosClient ex_deps (ex_reader RUNNING False) ''10.5.0.2''
        (Some (ex_machine [(''omni.sidero.dev/cluster'', ''c1'')])) =
     Returns (Inr [WithTLSConfig \<lparr>InsecureSkipVerify = True\<rparr>, WithEndpoints [''10.5.0.2'']])
   \<and> GetTalosClient ex_deps (ex_reader RUNNING True) ''10.5.0.2''
        (Some (ex_machine [(''omni.sidero.dev/cluster'', ''c1'')])) =
     Returns (Inr [WithConfig (NewTalosClientConfig ex_talosconfig [''10.5.0.2''])])"
  using
    GetTalosClient_ladder [where deps = ex_deps and r = "ex_reader RUNNING True"
      and address = "''10.5.0.2''" and machine = "ex_machine []"
      and snapshot = "ex_snapshot MAINTENANCE" and event = "\<lparr>Stage = MAINTENANCE\<rparr>"
      and clusterName = "''c1''" and err = "ErrNotFound ''c1''" and talosConfig = ex_talosconfig
      and result = "[WithConfig (NewTalosClientConfig ex_talosconfig [''10.5.0.2''])]"]
    GetTalosClient_ladder [where deps = ex_deps and r = "ex_reader RUNNING True"
      and address = "''10.5.0.2''" and machine = "ex_machine [(''omni.sidero.dev/cluster'', ''c1'')]"
      and snapshot = "ex_snapshot MAINTENANCE" and event = "\<lparr>Stage = MAINTENANCE\<rparr>"
      and clusterName = "''c1''" and err = "ErrNotFound ''c1''" and talosConfig = ex_talosconfig
      and result = "[WithConfig (NewTalosClientConfig ex_talosconfig [''10.5.0.2''])]"]
  by (simp add: GetTalosClient_def createInsecureClient_def append_slice_def snapshot_allows_def
        ex_deps_def ex_reader_def ex_machine_def ex_snapshot_def ex_md_def kv_Get_def Let_def)

text \<open>
  C2. The ladder gives the insecure client to a machine without the cluster label and
  to a machine whose cluster has no TalosConfig, and the client built from the
  TalosConfig otherwise. The code does not reach these rungs when the snapshot of the
  machine is found without a status: line 228 checks the snapshot for nil, not its
  \<open>MachineStatus\<close>, before it reads the stage, and the call panics. Here the
  snapshot is found, its status is nil, and the call panics for the machine without
  the cluster label, for the machine whose cluster has no TalosConfig, and for the
  machine whose cluster has one; with the same snapshot carrying a status in the
  running stage, the first of these calls returns the insecure client.
\<close>

theorem GetTalosClient_panics_on_nil_status:
  "GetMachineStatusSnapshot (ex_reader_no_status True) (ID (Metadata (ex_machine []))) =
     Inr ex_snapshot_no_status
   \<and> MachineStatus (TypedSpec ex_snapshot_no_status) = None
   \<and> kv_Get (Labels (Metadata (ex_machine []))) (LabelCluster ex_deps) = None
   \<and> GetTalosClient ex_deps (ex_reader_no_status True) ''10.5.0.2'' (Some (ex_machine [])) = Panics
   \<and> GetTalosClient ex_deps (ex_reader_no_status False) ''10.5.0.2''
        (Some (ex_machine [(''omni.sidero.dev/cluster'', ''c1'')])) = Panics
   \<and> GetTalosClient ex_deps (ex_reader_no_status True) ''10.5.0.2''
        (Some (ex_machine [(''omni.sidero.dev/cluster'', ''c1'')])) = Panics
   \<and> GetTalosClient ex_deps (ex_reader RUNNING True) ''10.5.0.2'' (Some (ex_machine [])) =
       Returns (createInsecureClient ex_deps (GetSocketOptions ex_deps ''10.5.0.2'') ''10.5.0.2'')"
  by (simp add: GetTalosClient_def createInsecureClient_def append_slice_def ex_deps_def
        ex_reader_no_status_def ex_snapshot_no_status_def ex_reader_def ex_snapshot_def
        ex_machine_def ex_md_def kv_Get_def Let_def)




section \<open>Compressing config patches\<close>

lemma len_pos: "len s > 0 \<Longrightarrow> s = Some (bytes_of_slice s)"
  by (cases s) (simp_all add: len_def bytes_of_slice_def)

lemma getCompressed_empty:
  "IsEmptyPatch codec p \<Longrightarrow> getCompressed codec p = (Inr None, p)"
  by (simp add: getCompressed_def)

lemma getCompressed_present:
  "\<not> IsEmptyPatch codec p \<Longrightarrow> len (CompressedData (TypedSpec p)) > 0 \<Longrightarrow>
   getCompressed codec p = (Inr (CompressedData (TypedSpec p)), p)"
  by (simp add: getCompressed_def Let_def)

lemma getCompressed_written:
  assumes "\<not> IsEmptyPatch codec p" "len (CompressedData (TypedSpec p)) = 0"
    "GetUncompressedData codec (TypedSpec p) = Inr d" "writes_back codec (TypedSpec p) d"
  shows "getCompressed codec p =
           (Inr (Some (compressed_form codec p)),
            p\<lparr>TypedSpec := snd (SetUncompressedData codec (TypedSpec p) d)\<rparr>)"
    and "\<not> IsEmptyPatch codec (p\<lparr>TypedSpec := snd (SetUncompressedData codec (TypedSpec p) d)\<rparr>)"
proof -
  obtain e spec' where s: "SetUncompressedData codec (TypedSpec p) d = (e, spec')"
    by (cases "SetUncompressedData codec (TypedSpec p) d")
  from assms(4) s have e: "e = None" and l: "len (CompressedData spec') > 0"
    and g: "GetUncompressedData codec spec' = Inr d"
    by (auto simp: writes_back_def split: option.splits)
  from assms(1,3) have ns: "\<not> only_space d"
    by (simp add: IsEmptyPatch_def)
  show "getCompressed codec p =
           (Inr (Some (compressed_form codec p)),
            p\<lparr>TypedSpec := snd (SetUncompressedData codec (TypedSpec p) d)\<rparr>)"
    using assms(1,2,3) s e len_pos [OF l]
    by (simp add: getCompressed_def Let_def compressed_form_def)
  show "\<not> IsEmptyPatch codec (p\<lparr>TypedSpec := snd (SetUncompressedData codec (TypedSpec p) d)\<rparr>)"
    using s g ns by (simp add: IsEmptyPatch_def)
qed

lemma getCompressed_well_behaved:
  assumes "well_behaved codec p" "\<not> IsEmptyPatch codec p"
  shows "fst (getCompressed codec p) = Inr (Some (compressed_form codec p))
         \<and> \<not> IsEmptyPatch codec (snd (getCompressed codec p))"
proof (cases "len (CompressedData (TypedSpec p)) > 0")
  case True
  then show ?thesis
    using assms(2) len_pos [OF True]
    by (simp add: getCompressed_present compressed_form_def)
next
  case False
  then have z: "len (CompressedData (TypedSpec p)) = 0" by simp
  from assms(1) z obtain d where d: "GetUncompressedData codec (TypedSpec p) = Inr d"
    and w: "writes_back codec (TypedSpec p) d"
    by (auto simp: well_behaved_def split: sum.splits)
  show ?thesis
    using getCompressed_written [OF assms(2) z d w] by simp
qed

lemma SetPatchesCompress_skip:
  "getCompressed codec p = (Inr None, p') \<Longrightarrow>
   SetPatchesCompress codec res (p # rest) =
     (case SetPatchesCompress codec res rest of (e, res', rest') \<Rightarrow> (e, res', p' # rest'))"
  by simp

lemma SetPatchesCompress_keep:
  "getCompressed codec p = (Inr (Some compr), p') \<Longrightarrow> \<not> IsEmptyPatch codec p' \<Longrightarrow>
   SetPatchesCompress codec res (p # rest) =
     (case SetPatchesCompress codec
             (res\<lparr>TypedSpec := (TypedSpec res)
                \<lparr>CompressedPatches := CompressedPatches (TypedSpec res) @ [compr]\<rparr>\<rparr>) rest of
        (e, res', rest') \<Rightarrow> (e, res', p' # rest'))"
  by simp

lemma SetPatchesCompress_fail:
  "getCompressed codec p = (Inl err, p') \<Longrightarrow>
   SetPatchesCompress codec res (p # rest) = (Some err, res, p' # rest)"
  by simp

lemma SetPatchesCompress_append:
  "SetPatchesCompress codec res pre = (None, res1, pre') \<Longrightarrow>
   SetPatchesCompress codec res (pre @ rest) =
     (case SetPatchesCompress codec res1 rest of (e, res2, rest') \<Rightarrow> (e, res2, pre' @ rest'))"
proof (induction pre arbitrary: res pre')
  case Nil
  then show ?case by (auto split: prod.splits)
next
  case (Cons p pre)
  show ?case
    using Cons.prems Cons.IH
    by (auto split: prod.splits sum.splits option.splits if_splits)
qed

lemma SetPatchesCompress_step:
  "fst (snd (SetPatchesCompress codec res (p # rest))) = res
   \<or> fst (snd (SetPatchesCompress codec res (p # rest))) =
       fst (snd (SetPatchesCompress codec res rest))
   \<or> (\<exists>z. fst (snd (SetPatchesCompress codec res (p # rest))) =
       fst (snd (SetPatchesCompress codec
         (res\<lparr>TypedSpec := (TypedSpec res)
            \<lparr>CompressedPatches := CompressedPatches (TypedSpec res) @ [z]\<rparr>\<rparr>) rest)))"
proof (cases "getCompressed codec p")
  case (Pair g p')
  show ?thesis
  proof (cases g)
    case (Inl err)
    with Pair show ?thesis by simp
  next
    case (Inr v)
    show ?thesis
    proof (cases v)
      case None
      with Pair Inr show ?thesis by (simp split: prod.splits)
    next
      case (Some z)
      show ?thesis
      proof (cases "length z < 1024 \<and> IsEmptyPatch codec p'")
        case True
        with Pair Inr Some show ?thesis by (simp split: prod.splits)
      next
        case False
        with Pair Inr Some have "fst (snd (SetPatchesCompress codec res (p # rest))) =
          fst (snd (SetPatchesCompress codec
            (res\<lparr>TypedSpec := (TypedSpec res)
               \<lparr>CompressedPatches := CompressedPatches (TypedSpec res) @ [z]\<rparr>\<rparr>) rest))"
          by (auto split: prod.splits)
        then show ?thesis by blast
      qed
    qed
  qed
qed

lemma SetPatchesCompress_extends:
  "\<exists>appended. CompressedPatches (TypedSpec (fst (snd (SetPatchesCompress codec res patches)))) =
      CompressedPatches (TypedSpec res) @ appended"
proof (induction patches arbitrary: res)
  case Nil
  then show ?case by simp
next
  case (Cons p rest)
  from SetPatchesCompress_step [of codec res p rest] show ?case
  proof (elim disjE exE)
    assume "fst (snd (SetPatchesCompress codec res (p # rest))) = res"
    then show ?thesis by simp
  next
    assume "fst (snd (SetPatchesCompress codec res (p # rest))) =
       fst (snd (SetPatchesCompress codec res rest))"
    then show ?thesis using Cons.IH [of res] by simp
  next
    fix z
    assume a: "fst (snd (SetPatchesCompress codec res (p # rest))) =
       fst (snd (SetPatchesCompress codec
         (res\<lparr>TypedSpec := (TypedSpec res)
            \<lparr>CompressedPatches := CompressedPatches (TypedSpec res) @ [z]\<rparr>\<rparr>) rest))"
    obtain appended where "CompressedPatches (TypedSpec (fst (snd (SetPatchesCompress codec
         (res\<lparr>TypedSpec := (TypedSpec res)
            \<lparr>CompressedPatches := CompressedPatches (TypedSpec res) @ [z]\<rparr>\<rparr>) rest)))) =
        (CompressedPatches (TypedSpec res) @ [z]) @ appended"
      using Cons.IH [of "res\<lparr>TypedSpec := (TypedSpec res)
            \<lparr>CompressedPatches := CompressedPatches (TypedSpec res) @ [z]\<rparr>\<rparr>"]
      by auto
    then show ?thesis using a by simp
  qed
qed

text \<open>
  A patch that is not empty and is left without compressed bytes by the codec is
  skipped like an empty one: \<open>getCompressed\<close> returns nil for it.
\<close>

lemma getCompressed_nil_after_write:
  assumes "\<not> IsEmptyPatch codec p" "len (CompressedData (TypedSpec p)) = 0"
    "GetUncompressedData codec (TypedSpec p) = Inr d"
    "SetUncompressedData codec (TypedSpec p) d = (None, spec')" "CompressedData spec' = None"
  shows "getCompressed codec p = (Inr None, p\<lparr>TypedSpec := spec'\<rparr>)"
  using assms by (simp add: getCompressed_def Let_def)

text \<open>
  C3. On patches on which the codec behaves, \<open>SetPatchesCompress\<close> returns no
  error and appends, in input order, the compressed bytes of exactly the patches that
  are not empty: a patch is empty when its data reads as white space only, whatever
  the size of its compressed bytes. A patch that carries compressed bytes contributes
  these bytes and is left as it is; it is not written again. With any codec, an empty
  patch at the head of the list adds nothing: the call goes on with the rest.
\<close>

theorem SetPatchesCompress_appends_nonempty:
  assumes "\<forall>p\<in>set patches. well_behaved codec p"
  shows "SetPatchesCompress codec res patches =
     (None,
      res\<lparr>TypedSpec := (TypedSpec res)
        \<lparr>CompressedPatches := CompressedPatches (TypedSpec res)
            @ map (compressed_form codec) (filter (\<lambda>p. \<not> IsEmptyPatch codec p) patches)\<rparr>\<rparr>,
      map (\<lambda>p. snd (getCompressed codec p)) patches)
   \<and> (\<forall>p\<in>set patches.
         IsEmptyPatch codec p =
           (case GetUncompressedData codec (TypedSpec p) of
              Inl err \<Rightarrow> False | Inr d \<Rightarrow> only_space d))
   \<and> (\<forall>p\<in>set patches. len (CompressedData (TypedSpec p)) > 0 \<longrightarrow>
         compressed_form codec p = bytes_of_slice (CompressedData (TypedSpec p))
         \<and> snd (getCompressed codec p) = p)
   \<and> (IsEmptyPatch codec q \<longrightarrow>
         SetPatchesCompress codec res' (q # rest) =
           (case SetPatchesCompress codec res' rest of (e, res'', rest') \<Rightarrow> (e, res'', q # rest')))"
proof -
  have run: "SetPatchesCompress codec res patches =
     (None,
      res\<lparr>TypedSpec := (TypedSpec res)
        \<lparr>CompressedPatches := CompressedPatches (TypedSpec res)
            @ map (compressed_form codec) (filter (\<lambda>p. \<not> IsEmptyPatch codec p) patches)\<rparr>\<rparr>,
      map (\<lambda>p. snd (getCompressed codec p)) patches)"
    using assms
  proof (induction patches arbitrary: res)
    case Nil
    then show ?case by simp
  next
    case (Cons p rest)
    then have wb: "well_behaved codec p" and rest: "\<forall>p\<in>set rest. well_behaved codec p"
      by simp_all
    show ?case
    proof (cases "IsEmptyPatch codec p")
      case True
      show ?thesis
        using True Cons.IH [OF rest, of res]
        by (simp add: SetPatchesCompress_skip [OF getCompressed_empty [OF True]] getCompressed_empty
                 del: SetPatchesCompress.simps)
    next
      case False
      obtain p' where g: "getCompressed codec p = (Inr (Some (compressed_form codec p)), p')"
        and ne: "\<not> IsEmptyPatch codec p'"
        using getCompressed_well_behaved [OF wb False]
        by (cases "getCompressed codec p") auto
      show ?thesis
        using False g
          Cons.IH [OF rest, of "res\<lparr>TypedSpec := (TypedSpec res)
                  \<lparr>CompressedPatches := CompressedPatches (TypedSpec res) @ [compressed_form codec p]\<rparr>\<rparr>"]
        by (simp add: SetPatchesCompress_keep [OF g ne] del: SetPatchesCompress.simps)
    qed
  qed
  have as_is: "snd (getCompressed codec p) = p" if "len (CompressedData (TypedSpec p)) > 0" for p
    using that by (cases "IsEmptyPatch codec p")
      (simp_all add: getCompressed_empty getCompressed_present)
  have form: "compressed_form codec p = bytes_of_slice (CompressedData (TypedSpec p))"
    if "len (CompressedData (TypedSpec p)) > 0" for p
    using that by (simp add: compressed_form_def)
  have skip: "SetPatchesCompress codec res' (q # rest) =
           (case SetPatchesCompress codec res' rest of (e, res'', rest') \<Rightarrow> (e, res'', q # rest'))"
    if "IsEmptyPatch codec q"
    by (rule SetPatchesCompress_skip [OF getCompressed_empty [OF that]])
  show ?thesis
    using run as_is form skip by (simp add: IsEmptyPatch_def del: SetPatchesCompress.simps)
qed

theorem SetPatchesCompress_appends_nonempty_witness:
  "well_behaved header_codec (ex_patch ''   '' None)
   \<and> well_behaved header_codec (ex_patch ''a: 1'' None)
   \<and> well_behaved header_codec (ex_patch [] (Some [0x5A, 0x62]))
   \<and> IsEmptyPatch header_codec (ex_patch ''   '' None)
   \<and> SetPatchesCompress header_codec (ex_res [])
       [ex_patch ''   '' None, ex_patch ''a: 1'' None, ex_patch [] (Some [0x5A, 0x62])] =
     (None, ex_res [[0x5A, 0x61, 0x3A, 0x20, 0x31], [0x5A, 0x62]],
      [ex_patch ''   '' None, ex_patch [] (Some [0x5A, 0x61, 0x3A, 0x20, 0x31]),
       ex_patch [] (Some [0x5A, 0x62])])"
  using SetPatchesCompress_appends_nonempty [where
      patches = "[ex_patch ''   '' None, ex_patch ''a: 1'' None, ex_patch [] (Some [0x5A, 0x62])]"
      and codec = header_codec and res = "ex_res []"]
  by (simp add: well_behaved_def writes_back_def header_codec_def ex_patch_def ex_res_def ex_md_def
        len_def bytes_of_def IsEmptyPatch_def getCompressed_def compressed_form_def
        bytes_of_slice_def Let_def)

text \<open>
  C8. The claim fails for a failure to decompress a patch that carries compressed
  bytes: \<open>IsEmptyPatch\<close> takes a patch that cannot be read for a patch that is not
  empty, and \<open>SetPatchesCompress\<close> appends its bytes and returns no error.
\<close>

theorem SetPatchesCompress_swallows_decompress_failure:
  "GetUncompressedData header_codec (TypedSpec (ex_patch [] (Some [0x00, 0x62]))) =
     Inl (ErrOther ''invalid header'')
   \<and> SetPatchesCompress header_codec (ex_res []) [ex_patch [] (Some [0x00, 0x62])] =
       (None, ex_res [[0x00, 0x62]], [ex_patch [] (Some [0x00, 0x62])])"
  by (simp add: header_codec_def ex_patch_def ex_res_def ex_md_def getCompressed_def
        IsEmptyPatch_def len_def Let_def)

text \<open>
  C8, as amended. When \<open>getCompressed\<close> fails on a patch, after the patches before
  it went through, \<open>SetPatchesCompress\<close> returns that error and leaves \<open>res\<close> as
  these patches left it, with what they appended. \<open>getCompressed\<close> fails only on a
  patch without compressed bytes that is not taken for empty; a patch with compressed
  bytes whose data cannot be read is no failure, its bytes are returned as they are.
\<close>

theorem SetPatchesCompress_failure:
  assumes "SetPatchesCompress codec res pre = (None, res1, pre')"
    and "getCompressed codec patch = (Inl err, patch')"
  shows "SetPatchesCompress codec res (pre @ patch # post) = (Some err, res1, pre' @ patch' # post)
   \<and> (\<exists>appended. CompressedPatches (TypedSpec res1) = CompressedPatches (TypedSpec res) @ appended)
   \<and> \<not> IsEmptyPatch codec patch \<and> len (CompressedData (TypedSpec patch)) = 0
   \<and> (GetUncompressedData codec (TypedSpec p) = Inl e \<and> len (CompressedData (TypedSpec p)) > 0 \<longrightarrow>
        getCompressed codec p = (Inr (CompressedData (TypedSpec p)), p))"
proof -
  have run: "SetPatchesCompress codec res (pre @ patch # post) =
      (Some err, res1, pre' @ patch' # post)"
    using SetPatchesCompress_append [OF assms(1), of "patch # post"]
    by (simp add: SetPatchesCompress_fail [OF assms(2)] del: SetPatchesCompress.simps)
  have ext: "\<exists>appended. CompressedPatches (TypedSpec res1) = CompressedPatches (TypedSpec res) @ appended"
    using SetPatchesCompress_extends [of codec res pre] assms(1) by simp
  have only: "\<not> IsEmptyPatch codec patch \<and> len (CompressedData (TypedSpec patch)) = 0"
    using assms(2)
    by (auto simp: getCompressed_def Let_def split: if_splits sum.splits prod.splits option.splits)
  have unread: "getCompressed codec p = (Inr (CompressedData (TypedSpec p)), p)"
    if "GetUncompressedData codec (TypedSpec p) = Inl e" "len (CompressedData (TypedSpec p)) > 0"
    using that by (simp add: getCompressed_def IsEmptyPatch_def Let_def)
  show ?thesis
    using run ext only unread by blast
qed

theorem SetPatchesCompress_failure_witness:
  "SetPatchesCompress header_codec (ex_res []) [ex_patch ''a: 1'' None] =
     (None, ex_res [[0x5A, 0x61, 0x3A, 0x20, 0x31]], [ex_patch [] (Some [0x5A, 0x61, 0x3A, 0x20, 0x31])])
   \<and> getCompressed header_codec (ex_patch [] (Some [])) =
       (Inl (ErrOther ''unexpected end of data''), ex_patch [] (Some []))
   \<and> SetPatchesCompress header_codec (ex_res [])
       ([ex_patch ''a: 1'' None] @ ex_patch [] (Some []) # [ex_patch [] (Some [0x5A, 0x62])]) =
     (Some (ErrOther ''unexpected end of data''), ex_res [[0x5A, 0x61, 0x3A, 0x20, 0x31]],
      [ex_patch [] (Some [0x5A, 0x61, 0x3A, 0x20, 0x31])] @ ex_patch [] (Some [])
        # [ex_patch [] (Some [0x5A, 0x62])])"
proof -
  have pre: "SetPatchesCompress header_codec (ex_res []) [ex_patch ''a: 1'' None] =
     (None, ex_res [[0x5A, 0x61, 0x3A, 0x20, 0x31]], [ex_patch [] (Some [0x5A, 0x61, 0x3A, 0x20, 0x31])])"
    by (simp add: header_codec_def ex_patch_def ex_res_def ex_md_def getCompressed_def
          IsEmptyPatch_def len_def bytes_of_def Let_def)
  have fail: "getCompressed header_codec (ex_patch [] (Some [])) =
       (Inl (ErrOther ''unexpected end of data''), ex_patch [] (Some []))"
    by (simp add: header_codec_def ex_patch_def ex_md_def getCompressed_def IsEmptyPatch_def
          len_def Let_def)
  from SetPatchesCompress_failure [OF pre fail, where post = "[ex_patch [] (Some [0x5A, 0x62])]"]
    pre fail
  show ?thesis by blast
qed

end
